theory Spec2Isabelle
  imports Main "HOL-Library.Log_Nat"
begin

section \<open>Python values and exceptions\<close>

text \<open>
  The exceptions that \<^verbatim>\<open>process_video\<close> and \<^verbatim>\<open>main\<close> of \<^verbatim>\<open>main.py\<close> can meet.
  \<open>FfmpegError\<close> is \<^verbatim>\<open>ffmpeg.Error\<close>, the only one the source catches; every other
  one leaves \<^verbatim>\<open>process_video\<close> and ends the run.
\<close>

datatype stderr = NoStderr | Utf8Stderr string | BadStderr

datatype pyerror =
    OverflowError
  | ZeroDivisionError
  | KeyError string
  | ValueError
  | AttributeError
  | UnicodeDecodeError
  | OSError
  | FfmpegError stderr

section \<open>Floating point: \<^verbatim>\<open>int(width/1.5)\<close>\<close>

text \<open>
  Line 50 computes \<^verbatim>\<open>int(width/1.5)\<close>: \<^verbatim>\<open>width\<close> is a Python \<^verbatim>\<open>int\<close> (unbounded),
  \<^verbatim>\<open>1.5\<close> a \<^verbatim>\<open>float\<close> (IEEE 754 binary64), so \<^verbatim>\<open>width\<close> is first converted to
  binary64 (rounded to nearest, ties to even; \<^verbatim>\<open>OverflowError\<close> when it does not fit),
  the quotient is rounded to binary64 the same way, and \<^verbatim>\<open>int\<close> truncates it toward
  zero. A finite binary64 value is written \<open>PyFloat m e\<close>, standing for \<open>m * 2 ^ e\<close>,
  with \<open>\<bar>m\<bar> \<le> 2 ^ 53\<close>.
\<close>

datatype pyfloat = PyFloat int int

definition round_half_even :: "int \<Rightarrow> int \<Rightarrow> int" where
  \<comment> \<open>The integer nearest to \<open>n / d\<close> (\<open>0 \<le> n\<close>, \<open>0 < d\<close>), a tie going to the even one.\<close>
  "round_half_even n d =
     (let q = n div d; r = n mod d
      in if 2 * r < d then q
         else if d < 2 * r then q + 1
         else if even q then q else q + 1)"

definition shift_ratio :: "int \<Rightarrow> int \<Rightarrow> int \<Rightarrow> int \<times> int" where
  \<comment> \<open>Numerator and denominator of \<open>(n / d) / 2 ^ e\<close>, for an exponent of either sign.\<close>
  "shift_ratio n d e = (if 0 \<le> e then (n, d * 2 ^ nat e) else (n * 2 ^ nat (- e), d))"

definition binary64_exponent :: "int \<Rightarrow> int \<Rightarrow> int" where
  \<comment> \<open>For \<open>0 < n\<close>, \<open>0 < d\<close>: the exponent \<open>e\<close> of the unit in the last place of \<open>n / d\<close>,
      that is \<open>2 ^ 52 \<le> (n / d) / 2 ^ e < 2 ^ 53\<close>, and \<open>- 1074\<close> in the subnormal range.\<close>
  "binary64_exponent n d =
     (let t = bitlen n - bitlen d;
          (a, b) = shift_ratio n d t;
          fl = (if a < b then t - 1 else t)
      in max (- 1074) (fl - 52))"

definition binary64_round :: "int \<Rightarrow> int \<Rightarrow> int \<times> int" where
  \<comment> \<open>The binary64 value nearest to \<open>n / d\<close> (\<open>0 < n\<close>, \<open>0 < d\<close>), as mantissa and exponent.\<close>
  "binary64_round n d =
     (let e = binary64_exponent n d;
          (a, b) = shift_ratio n d e
      in (round_half_even a b, e))"

definition float_of_int :: "int \<Rightarrow> pyerror + pyfloat" where
  \<comment> \<open>The conversion of an \<^verbatim>\<open>int\<close> operand of \<^verbatim>\<open>/\<close> to \<^verbatim>\<open>float\<close>: correctly rounded,
      \<^verbatim>\<open>OverflowError\<close> when the rounded magnitude reaches \<open>2 ^ 1024\<close>.\<close>
  "float_of_int i =
     (if i = 0 then Inr (PyFloat 0 0)
      else let (m, e) = binary64_round \<bar>i\<bar> 1
           in if 0 \<le> e \<and> 2 ^ 1024 \<le> m * 2 ^ nat e then Inl OverflowError
              else Inr (PyFloat (sgn i * m) e))"

definition float_truediv :: "pyfloat \<Rightarrow> pyfloat \<Rightarrow> pyerror + pyfloat" where
  \<comment> \<open>\<^verbatim>\<open>x / y\<close> on floats. The quotient is finite whenever \<open>1 \<le> \<bar>y\<bar>\<close>, the only use
      here (\<open>y = 1.5\<close>); an infinite quotient is not represented.\<close>
  "float_truediv x y =
     (case x of PyFloat mx ex \<Rightarrow> (case y of PyFloat my ey \<Rightarrow>
        if my = 0 then Inl ZeroDivisionError
        else if mx = 0 then Inr (PyFloat 0 0)
        else let (n, d) = shift_ratio \<bar>mx\<bar> \<bar>my\<bar> (ey - ex);
                 (m, e) = binary64_round n d
             in Inr (PyFloat (sgn mx * sgn my * m) e)))"

definition int_of_float :: "pyfloat \<Rightarrow> int" where
  \<comment> \<open>\<^verbatim>\<open>int(x)\<close> of a finite float: truncation toward zero.\<close>
  "int_of_float x =
     (case x of PyFloat m e \<Rightarrow>
        if 0 \<le> e then m * 2 ^ nat e else sgn m * (\<bar>m\<bar> div 2 ^ nat (- e)))"

definition one_point_five :: pyfloat where
  "one_point_five = PyFloat 3 (- 1)"

definition scaled_width :: "int \<Rightarrow> pyerror + int" where
  \<comment> \<open>\<^verbatim>\<open>int(width/1.5)\<close>, line 50.\<close>
  "scaled_width width =
     (case float_of_int width of
        Inl err \<Rightarrow> Inl err
      | Inr x \<Rightarrow> (case float_truediv x one_point_five of
          Inl err \<Rightarrow> Inl err
        | Inr q \<Rightarrow> Inr (int_of_float q)))"

section \<open>Rendering\<close>

text \<open>
  An f-string renders an \<^verbatim>\<open>int\<close> in decimal, with a leading minus sign when negative;
  \<^verbatim>\<open>','.join\<close> puts the separator between the items.
\<close>

definition digit_char :: "nat \<Rightarrow> char" where
  "digit_char d = ''0123456789'' ! d"

fun digits_of_nat :: "nat \<Rightarrow> string" where
  "digits_of_nat n =
     (if n < 10 then [digit_char n]
      else digits_of_nat (n div 10) @ [digit_char (n mod 10)])"

declare digits_of_nat.simps [simp del]

definition str_of_int :: "int \<Rightarrow> string" where
  "str_of_int i = (if i < 0 then CHR ''-'' # digits_of_nat (nat (- i)) else digits_of_nat (nat i))"

fun str_join :: "string \<Rightarrow> string list \<Rightarrow> string" where
  "str_join sep [] = []"
| "str_join sep [x] = x"
| "str_join sep (x # y # ys) = x @ sep @ str_join sep (y # ys)"

section \<open>The probed stream\<close>

text \<open>
  One entry of \<^verbatim>\<open>probe['streams']\<close>: a dictionary of which \<^verbatim>\<open>process_video\<close> reads the
  keys \<^verbatim>\<open>codec_type\<close>, \<^verbatim>\<open>width\<close>, \<^verbatim>\<open>height\<close> and \<^verbatim>\<open>tags\<close>. A key that is absent is
  \<open>None\<close>. The probe gives \<^verbatim>\<open>width\<close> and \<^verbatim>\<open>height\<close> as JSON numbers, on which
  \<^verbatim>\<open>int\<close> is the identity, and every tag as a string.
\<close>

record stream =
  stream_codec_type :: "string option"
  stream_width :: "int option"
  stream_height :: "int option"
  stream_tags :: "(string \<rightharpoonup> string) option"

fun first_video_stream :: "stream list \<Rightarrow> pyerror + stream option" where
  \<comment> \<open>Line 32: \<^verbatim>\<open>next((s for s in probe['streams'] if s['codec_type'] == 'video'), None)\<close>.
      A stream that is found holds the key \<^verbatim>\<open>codec_type\<close>, so it is a non-empty dictionary
      and the test \<^verbatim>\<open>if not video_stream\<close> of line 34 fails on it.\<close>
  "first_video_stream [] = Inr None"
| "first_video_stream (s # ss) =
     (case stream_codec_type s of
        None \<Rightarrow> Inl (KeyError ''codec_type'')
      | Some c \<Rightarrow> if c = ''video'' then Inr (Some s) else first_video_stream ss)"

definition get_tag :: "stream \<Rightarrow> string \<Rightarrow> string option" where
  \<comment> \<open>\<^verbatim>\<open>video_stream.get('tags', {}).get(key)\<close>.\<close>
  "get_tag vs key = (case stream_tags vs of None \<Rightarrow> None | Some t \<Rightarrow> t key)"

section \<open>Rotation, dimensions and the filter chain\<close>

definition corrected_dimensions :: "int \<Rightarrow> int \<Rightarrow> int \<Rightarrow> int \<times> int" where
  \<comment> \<open>Lines 40 to 44: \<^verbatim>\<open>width\<close> and \<^verbatim>\<open>height\<close> after the swap.\<close>
  "corrected_dimensions rotation width height =
     (let is_rotated = (rotation = 90 \<or> rotation = 270)
      in if is_rotated then (height, width) else (width, height))"

definition transpose_stage :: "int \<Rightarrow> string" where
  \<comment> \<open>Line 49: \<^verbatim>\<open>f"transpose={1 if rotation == 90 else 2}"\<close>. For ffmpeg, \<^verbatim>\<open>transpose=1\<close>
      turns the picture 90 degrees clockwise and \<^verbatim>\<open>transpose=2\<close> counter-clockwise.\<close>
  "transpose_stage rotation = ''transpose='' @ (if rotation = 90 then ''1'' else ''2'')"

definition scale_stage :: "int \<Rightarrow> int \<Rightarrow> string" where
  \<comment> \<open>Line 50, with the target width already computed.\<close>
  "scale_stage target_width height =
     ''scale='' @ str_of_int target_width @ '':'' @ str_of_int height
       @ '':force_original_aspect_ratio=decrease''"

definition vf_filters :: "int \<Rightarrow> int \<Rightarrow> int \<Rightarrow> pyerror + string list" where
  \<comment> \<open>Lines 47 to 50; \<^verbatim>\<open>width\<close> and \<^verbatim>\<open>height\<close> are the values after the swap.\<close>
  "vf_filters rotation width height =
     (let filters = (if rotation \<noteq> 0 then [transpose_stage rotation] else [])
      in case scaled_width width of
           Inl err \<Rightarrow> Inl err
         | Inr target_width \<Rightarrow> Inr (filters @ [scale_stage target_width height]))"

definition filter_plan :: "int \<Rightarrow> int \<Rightarrow> int \<Rightarrow> pyerror + (int \<times> int) \<times> string list" where
  \<comment> \<open>Lines 40 to 50 from the raw \<^verbatim>\<open>rotation\<close>, \<^verbatim>\<open>width\<close> and \<^verbatim>\<open>height\<close>: the dimensions
      after the swap and the list \<^verbatim>\<open>vf_filters\<close>.\<close>
  "filter_plan rotation width height =
     (case corrected_dimensions rotation width height of
        (w, h) \<Rightarrow> (case vf_filters rotation w h of
          Inl err \<Rightarrow> Inl err
        | Inr filters \<Rightarrow> Inr ((w, h), filters)))"

section \<open>Encoder options\<close>

datatype pyval = PyStr string | PyInt int

definition output_kwargs :: "string list \<Rightarrow> bool \<Rightarrow> string \<Rightarrow> (string \<times> pyval) list" where
  \<comment> \<open>Lines 53 to 67: the dictionary \<^verbatim>\<open>output_kwargs\<close>, in the order of its keys.\<close>
  "output_kwargs filters use_hwaccel creation_time =
     [(''vf'', PyStr (str_join '','' filters)),
      (''c:v'', PyStr (if use_hwaccel then ''h264_qsv'' else ''libx264'')),
      (''crf'', PyInt 18),
      (''preset'', PyStr ''fast''),
      (''movflags'', PyStr ''+faststart''),
      (''map_metadata'', PyStr ''0''),
      (''metadata:s:v'', PyStr ''rotate=0''),
      (''disposition:v'', PyStr ''0''),
      (''disposition:a'', PyStr ''0''),
      (''c:a'', PyStr ''copy''),
      (''metadata'', PyStr (''creation_time='' @ creation_time))]"

definition build_options ::
  "int \<Rightarrow> int \<Rightarrow> int \<Rightarrow> string \<Rightarrow> bool \<Rightarrow> pyerror + (string \<times> pyval) list" where
  \<comment> \<open>Lines 40 to 67 from the values read off the stream.\<close>
  "build_options rotation width height creation_time use_hwaccel =
     (case filter_plan rotation width height of
        Inl err \<Rightarrow> Inl err
      | Inr (dims, filters) \<Rightarrow> Inr (output_kwargs filters use_hwaccel creation_time))"

definition encode_options ::
  "(string \<Rightarrow> int option) \<Rightarrow> stream \<Rightarrow> bool \<Rightarrow> pyerror + (string \<times> pyval) list" where
  \<comment> \<open>Lines 39 to 67. \<open>py_int\<close> is Python's \<^verbatim>\<open>int\<close> on a string, \<open>None\<close> where it raises
      \<^verbatim>\<open>ValueError\<close>; an absent \<^verbatim>\<open>rotate\<close> tag reads as 0, an absent
      \<^verbatim>\<open>creation_time\<close> tag as the empty string.\<close>
  "encode_options py_int vs use_hwaccel =
     (case (case get_tag vs ''rotate'' of
              None \<Rightarrow> Inr 0
            | Some v \<Rightarrow> (case py_int v of None \<Rightarrow> Inl ValueError | Some r \<Rightarrow> Inr r)) of
        Inl err \<Rightarrow> Inl err
      | Inr rotation \<Rightarrow>
          (case stream_width vs of
             None \<Rightarrow> Inl (KeyError ''width'')
           | Some width \<Rightarrow>
               (case stream_height vs of
                  None \<Rightarrow> Inl (KeyError ''height'')
                | Some height \<Rightarrow>
                    build_options rotation width height
                      (case get_tag vs ''creation_time'' of None \<Rightarrow> [] | Some c \<Rightarrow> c)
                      use_hwaccel)))"

section \<open>Processing one file\<close>

text \<open>
  The collaborators of \<^verbatim>\<open>process_video\<close>, each given by what it returns or raises:
  \<^verbatim>\<open>os.path.getmtime\<close>, \<^verbatim>\<open>ffmpeg.probe\<close> (its dictionary reduced to the value under
  \<^verbatim>\<open>'streams'\<close>, \<open>None\<close> when the key is absent), the run of the encoder,
  \<^verbatim>\<open>os.utime\<close>, and \<^verbatim>\<open>int\<close> on a string. The file names of one directory listing are
  distinct, so each path is asked about once in a run.
\<close>

record 't externals =
  getmtime :: "string \<Rightarrow> pyerror + 't"
  probe :: "string \<Rightarrow> pyerror + stream list option"
  run :: "string \<Rightarrow> string \<Rightarrow> (string \<times> pyval) list \<Rightarrow> string list \<Rightarrow> bool \<Rightarrow> pyerror option"
  utime :: "string \<Rightarrow> 't \<times> 't \<Rightarrow> pyerror option"
  py_int :: "string \<Rightarrow> int option"

text \<open>
  What the program prints, one constructor for each \<^verbatim>\<open>print\<close> of the source: the
  warning of line 35, the error of line 81, and the lines 97, 100, 101, 109, 112, 114 and
  116 of \<^verbatim>\<open>main\<close>.
\<close>

datatype message =
    NoVideoStreamWarning string
  | ProcessingError string string
  | NoVideoFilesFound string
  | FoundFiles nat
  | EncoderMode bool
  | Processing string
  | Completed string
  | Failed string
  | Summary nat nat

definition try_body ::
  "'t externals \<Rightarrow> string \<Rightarrow> string \<Rightarrow> bool \<Rightarrow> pyerror + bool \<times> message list" where
  \<comment> \<open>Lines 30 to 78: the value returned with what was printed, or the exception raised.
      The run gets the input path, the output path, \<^verbatim>\<open>output_kwargs\<close>, the global
      arguments and \<^verbatim>\<open>overwrite_output\<close>.\<close>
  "try_body ext input_path output_path use_hwaccel =
     (case getmtime ext input_path of
        Inl err \<Rightarrow> Inl err
      | Inr original_mtime \<Rightarrow>
     (case probe ext input_path of
        Inl err \<Rightarrow> Inl err
      | Inr None \<Rightarrow> Inl (KeyError ''streams'')
      | Inr (Some streams) \<Rightarrow>
     (case first_video_stream streams of
        Inl err \<Rightarrow> Inl err
      | Inr None \<Rightarrow> Inr (False, [NoVideoStreamWarning input_path])
      | Inr (Some video_stream) \<Rightarrow>
     (case encode_options (py_int ext) video_stream use_hwaccel of
        Inl err \<Rightarrow> Inl err
      | Inr kwargs \<Rightarrow>
     (case run ext input_path output_path kwargs
             [''-map_metadata'', ''0'', ''-map'', ''0''] True of
        Some err \<Rightarrow> Inl err
      | None \<Rightarrow>
     (case utime ext output_path (original_mtime, original_mtime) of
        Some err \<Rightarrow> Inl err
      | None \<Rightarrow> Inr (True, [])))))))"

definition except_clause :: "string \<Rightarrow> pyerror \<Rightarrow> (pyerror + bool) \<times> message list" where
  \<comment> \<open>Lines 80 to 82: only \<^verbatim>\<open>ffmpeg.Error\<close> is caught. \<^verbatim>\<open>e.stderr.decode('utf8')\<close> raises
      \<^verbatim>\<open>AttributeError\<close> when \<^verbatim>\<open>e.stderr\<close> is \<^verbatim>\<open>None\<close> and \<^verbatim>\<open>UnicodeDecodeError\<close> when
      its bytes are not UTF-8.\<close>
  "except_clause input_path err =
     (case err of
        FfmpegError se \<Rightarrow>
          (case se of
             NoStderr \<Rightarrow> (Inl AttributeError, [])
           | BadStderr \<Rightarrow> (Inl UnicodeDecodeError, [])
           | Utf8Stderr text \<Rightarrow> (Inr False, [ProcessingError input_path text]))
      | _ \<Rightarrow> (Inl err, []))"

definition process_video ::
  "'t externals \<Rightarrow> string \<Rightarrow> string \<Rightarrow> bool \<Rightarrow> (pyerror + bool) \<times> message list" where
  "process_video ext input_path output_path use_hwaccel =
     (case try_body ext input_path output_path use_hwaccel of
        Inr (result, printed) \<Rightarrow> (Inr result, printed)
      | Inl err \<Rightarrow> except_clause input_path err)"

section \<open>The batch\<close>

definition path_join :: "string \<Rightarrow> string \<Rightarrow> string" where
  \<comment> \<open>\<^verbatim>\<open>os.path.join\<close> of two parts, on POSIX.\<close>
  "path_join a b =
     (if b \<noteq> [] \<and> hd b = CHR ''/'' then b
      else if a = [] \<or> last a = CHR ''/'' then a @ b
      else a @ ''/'' @ b)"

fun main_loop ::
  "'t externals \<Rightarrow> string \<Rightarrow> string \<Rightarrow> bool \<Rightarrow> string list \<Rightarrow> nat
     \<Rightarrow> (pyerror + nat) \<times> message list" where
  \<comment> \<open>Lines 105 to 114: the loop over \<^verbatim>\<open>video_files\<close>, from a value of
      \<^verbatim>\<open>success_count\<close>. An exception that leaves \<^verbatim>\<open>process_video\<close> ends the loop.\<close>
  "main_loop ext input_dir output_dir hwaccel [] success_count = (Inr success_count, [])"
| "main_loop ext input_dir output_dir hwaccel (filename # rest) success_count =
     (case process_video ext (path_join input_dir filename) (path_join output_dir filename)
             hwaccel of
        (Inl err, printed) \<Rightarrow> (Inl err, Processing filename # printed)
      | (Inr True, printed) \<Rightarrow>
          (case main_loop ext input_dir output_dir hwaccel rest (success_count + 1) of
             (r, later) \<Rightarrow> (r, Processing filename # printed @ Completed filename # later))
      | (Inr False, printed) \<Rightarrow>
          (case main_loop ext input_dir output_dir hwaccel rest success_count of
             (r, later) \<Rightarrow> (r, Processing filename # printed @ Failed filename # later)))"

definition main ::
  "'t externals \<Rightarrow> string \<Rightarrow> string \<Rightarrow> bool \<Rightarrow> string list \<Rightarrow> pyerror option \<times> message list" where
  \<comment> \<open>Lines 96 to 116, from the list \<^verbatim>\<open>video_files\<close> that \<^verbatim>\<open>get_video_files\<close> returned:
      the exception that ended the run, if any, and what was printed.\<close>
  "main ext input_dir output_dir hwaccel video_files =
     (if video_files = [] then (None, [NoVideoFilesFound input_dir])
      else case main_loop ext input_dir output_dir hwaccel video_files 0 of
             (Inl err, printed) \<Rightarrow>
               (Some err, FoundFiles (length video_files) # EncoderMode hwaccel # printed)
           | (Inr success_count, printed) \<Rightarrow>
               (None, FoundFiles (length video_files) # EncoderMode hwaccel # printed
                        @ [Summary success_count (length video_files)]))"

section \<open>A sample run\<close>

text \<open>
  Concrete collaborators for the instances below: every modification time reads as 0, the
  probe of \<^verbatim>\<open>in/a.mp4\<close> finds an audio stream only and the probe of any other path an
  audio stream and a 1920 by 1080 video stream tagged \<^verbatim>\<open>rotate=90\<close>, the encoder
  always succeeds, and \<^verbatim>\<open>os.utime\<close> raises \<^verbatim>\<open>OSError\<close> when the flag is set.
\<close>

definition audio_stream :: stream where
  "audio_stream =
     \<lparr>stream_codec_type = Some ''audio'', stream_width = None, stream_height = None,
      stream_tags = None\<rparr>"

definition video_stream_1920_1080 :: stream where
  "video_stream_1920_1080 =
     \<lparr>stream_codec_type = Some ''video'', stream_width = Some 1920, stream_height = Some 1080,
      stream_tags = Some [''rotate'' \<mapsto> ''90'']\<rparr>"

definition example_externals :: "bool \<Rightarrow> nat externals" where
  "example_externals utime_fails =
     \<lparr>getmtime = (\<lambda>path. Inr 0),
      probe = (\<lambda>path. if path = ''in/a.mp4'' then Inr (Some [audio_stream])
                       else Inr (Some [audio_stream, video_stream_1920_1080])),
      run = (\<lambda>input_path output_path kwargs global_args overwrite. None),
      utime = (\<lambda>path times. if utime_fails then Some OSError else None),
      py_int = (\<lambda>text. if text = ''90'' then Some 90 else None)\<rparr>"



section \<open>Facts about the rounding\<close>

lemma round_half_even_denominator_one: "round_half_even n 1 = n"
  by (simp add: round_half_even_def)

lemma round_half_even_three:
  assumes "0 \<le> n"
  shows "round_half_even n 3 = (n + 1) div 3"
proof -
  have "n mod 3 = 0 \<or> n mod 3 = 1 \<or> n mod 3 = 2" by presburger
  then show ?thesis
    unfolding round_half_even_def Let_def by presburger
qed

lemma round_half_even_cancel:
  assumes "0 < c"
  shows "round_half_even (c * a) (c * b) = round_half_even a b"
proof -
  have d: "(c * a) div (c * b) = a div b" using assms by simp
  have m: "(c * a) mod (c * b) = c * (a mod b)" by (rule mod_mult_mult1)
  have lt: "2 * (c * (a mod b)) < c * b \<longleftrightarrow> 2 * (a mod b) < b"
    using assms by (metis mult.left_commute mult_less_cancel_left_pos)
  have gt: "c * b < 2 * (c * (a mod b)) \<longleftrightarrow> b < 2 * (a mod b)"
    using assms by (metis mult.left_commute mult_less_cancel_left_pos)
  show ?thesis
    unfolding round_half_even_def Let_def d m lt gt ..
qed

lemma third_after_scaling:
  fixes a :: int and s :: nat
  assumes "0 \<le> a" and "1 \<le> s"
  shows "round_half_even (a * 2 ^ s) 3 div 2 ^ s = a div 3"
proof -
  define P :: int where "P = 2 ^ s"
  have P2: "2 \<le> P"
    using assms(2) unfolding P_def
    by (metis power_increasing one_le_numeral power_one_right)
  have "round_half_even (a * P) 3 = (a * P + 1) div 3"
    using assms(1) P2 by (intro round_half_even_three) simp
  then have "round_half_even (a * P) 3 div P = (a * P + 1) div (3 * P)"
    using P2 by (simp add: zdiv_zmult2_eq)
  also have "a * P + 1 = (a mod 3 * P + 1) + (a div 3) * (3 * P)"
    by (simp add: algebra_simps flip: distrib_left)
  also have "\<dots> div (3 * P) = a div 3 + (a mod 3 * P + 1) div (3 * P)"
    using P2 by simp
  also have "(a mod 3 * P + 1) div (3 * P) = 0"
  proof (rule div_pos_pos_trivial)
    show "0 \<le> a mod 3 * P + 1" using P2 by simp
    have "a mod 3 \<le> 2" by presburger
    then have "a mod 3 * P \<le> 2 * P" using P2 by (intro mult_right_mono) auto
    then show "a mod 3 * P + 1 < 3 * P" using P2 by linarith
  qed
  finally show ?thesis by (simp add: P_def)
qed


lemma binary64_exponent_negative:
  assumes n: "0 < n" and d: "0 < d" and small: "n < 2 ^ 52 * d"
  shows "binary64_exponent n d < 0"
proof -
  define t where "t = bitlen n - bitlen d"
  have bn: "2 ^ nat (bitlen n - 1) \<le> n" using bitlen_bounds [OF n] by simp
  have bd: "d < 2 ^ nat (bitlen d)" using bitlen_bounds [OF d] by simp
  have t52: "t \<le> 52"
  proof (rule ccontr)
    assume "\<not> t \<le> 52"
    then have "nat (bitlen d) + 52 \<le> nat (bitlen n - 1)"
      using bitlen_nonneg [of d] by (simp add: t_def)
    then have "(2::int) ^ (nat (bitlen d) + 52) \<le> 2 ^ nat (bitlen n - 1)"
      by (intro power_increasing) simp_all
    then have "2 ^ 52 * (2::int) ^ nat (bitlen d) \<le> n"
      using bn by (simp add: power_add mult.commute)
    moreover have "2 ^ 52 * d < 2 ^ 52 * (2::int) ^ nat (bitlen d)"
      using bd by simp
    ultimately show False using small by linarith
  qed
  have t51: "t \<le> 51" if ge: "\<not> fst (shift_ratio n d t) < snd (shift_ratio n d t)"
  proof (rule ccontr)
    assume "\<not> t \<le> 51"
    then have t: "52 \<le> nat t" "0 \<le> t" by simp_all
    then have "d * 2 ^ nat t \<le> n"
      using ge by (simp add: shift_ratio_def)
    moreover have "(2::int) ^ 52 \<le> 2 ^ nat t"
      using t(1) by (intro power_increasing) simp_all
    then have "d * 2 ^ 52 \<le> d * 2 ^ nat t"
      using d by (intro mult_left_mono) simp_all
    ultimately show False using small by (simp add: mult.commute)
  qed
  show ?thesis
    using t52 t51
    by (auto simp: binary64_exponent_def Let_def t_def [symmetric] split: prod.splits)
qed

lemma float_of_int_exact:
  assumes "0 < w" and "w < 2 ^ 53"
  shows "\<exists>s. float_of_int w = Inr (PyFloat (w * 2 ^ s) (- int s))"
proof -
  define t where "t = bitlen w - 1"
  have b1: "bitlen 1 = 1" by (simp add: bitlen_alt_def)
  have t0: "0 \<le> t" using assms(1) by (simp add: t_def bitlen_alt_def)
  have "bitlen w \<le> 53" using assms(2) bitlen_le_iff_power [of w 53] by simp
  then have t52: "t \<le> 52" by (simp add: t_def)
  have "2 ^ nat t \<le> w" using bitlen_bounds [OF assms(1)] by (simp add: t_def)
  then have e: "binary64_exponent w 1 = t - 52"
    using t0 by (simp add: binary64_exponent_def Let_def b1 shift_ratio_def t_def [symmetric])
  define s where "s = nat (52 - t)"
  have r: "binary64_round w 1 = (w * 2 ^ s, - int s)"
    using t52 by (cases "t = 52")
      (simp_all add: binary64_round_def e shift_ratio_def s_def Let_def round_half_even_denominator_one)
  have "float_of_int w = Inr (PyFloat (w * 2 ^ s) (- int s))"
    using assms by (auto simp: float_of_int_def r)
  then show ?thesis ..
qed

lemma int_of_float_negative_exponent:
  assumes "0 \<le> m" and "e < 0"
  shows "int_of_float (PyFloat m e) = m div 2 ^ nat (- e)"
  using assms by (cases "m = 0") (simp_all add: int_of_float_def)

lemma divide_by_one_point_five:
  assumes w: "0 < w" and small: "w < 3 * 2 ^ 51"
  shows "\<exists>q. float_truediv (PyFloat (w * 2 ^ s) (- int s)) one_point_five = Inr q
           \<and> int_of_float q = 2 * w div 3"
proof -
  define c :: int where "c = (if s = 0 then 1 else 2 ^ (s - 1))"
  have c: "0 < c" by (simp add: c_def)
  have sr: "shift_ratio (w * 2 ^ s) 3 (int s - 1) = (c * (2 * w), c * 3)"
  proof (cases "s = 0")
    case True
    then show ?thesis using w by (simp add: shift_ratio_def c_def)
  next
    case False
    then have "(2::int) ^ s = 2 * 2 ^ (s - 1)" by (cases s) simp_all
    moreover have "nat (int s - 1) = s - 1" by simp
    ultimately show ?thesis using w False by (simp add: shift_ratio_def c_def abs_mult)
  qed
  define e where "e = binary64_exponent (c * (2 * w)) (c * 3)"
  have "c * (2 * w) < 2 ^ 52 * (c * 3)" using c small by simp
  then have e: "e < 0"
    unfolding e_def using c w by (intro binary64_exponent_negative) simp_all
  define k where "k = nat (- e)"
  have k: "1 \<le> k" using e by (simp add: k_def)
  define m where "m = round_half_even (2 * w * 2 ^ k) 3"
  have "round_half_even (c * (2 * w) * 2 ^ k) (c * 3) = m"
    using round_half_even_cancel [OF c, of "2 * w * 2 ^ k" 3] by (simp add: m_def mult.assoc)
  then have br: "binary64_round (c * (2 * w)) (c * 3) = (m, e)"
    using e by (simp add: binary64_round_def e_def [symmetric] shift_ratio_def k_def)
  have m0: "0 \<le> m"
  proof -
    have "0 \<le> 2 * w * 2 ^ k" using w by simp
    then show ?thesis
      unfolding m_def by (simp add: round_half_even_three pos_imp_zdiv_nonneg_iff)
  qed
  have "float_truediv (PyFloat (w * 2 ^ s) (- int s)) one_point_five = Inr (PyFloat m e)"
    using w by (simp add: float_truediv_def one_point_five_def sr br)
  moreover have "int_of_float (PyFloat m e) = 2 * w div 3"
    using third_after_scaling [of "2 * w" k] w k m0 e
    by (simp add: int_of_float_negative_exponent m_def k_def)
  ultimately show ?thesis by blast
qed

lemma scaled_width_small:
  assumes "0 < w" and "w < 3 * 2 ^ 51"
  shows "scaled_width w = Inr (2 * w div 3)"
proof -
  have "w < 2 ^ 53" using assms(2) by simp
  from float_of_int_exact [OF assms(1) this]
  obtain s where f: "float_of_int w = Inr (PyFloat (w * 2 ^ s) (- int s))" ..
  from divide_by_one_point_five [OF assms, of s]
  obtain q where "float_truediv (PyFloat (w * 2 ^ s) (- int s)) one_point_five = Inr q"
    and "int_of_float q = 2 * w div 3" by blast
  then show ?thesis by (simp add: scaled_width_def f)
qed

lemma scaled_width_boundary: "scaled_width (3 * 2 ^ 51) = Inr (2 * (3 * 2 ^ 51) div 3)"
  by code_simp

lemma floor_over_one_point_five: "\<lfloor>real_of_int w / 1.5\<rfloor> = 2 * w div 3"
proof -
  have "real_of_int w / 1.5 = real_of_int (2 * w) / real_of_int 3" by simp
  then show ?thesis by (simp only: floor_divide_of_int_eq)
qed

lemma scaled_width_two_thirds:
  assumes "0 < w" and "w \<le> 3 * 2 ^ 51"
  shows "scaled_width w = Inr (2 * w div 3)"
proof (cases "w = 3 * 2 ^ 51")
  case True
  then show ?thesis using scaled_width_boundary by simp
next
  case False
  then have "w < 3 * 2 ^ 51" using assms(2) by simp
  then show ?thesis using assms(1) by (rule scaled_width_small [rotated])
qed

section \<open>Facts about the options and the loop\<close>

lemma kwargs_of_build_options:
  assumes "build_options rotation width height creation_time use_hwaccel = Inr kwargs"
  shows "\<exists>filters. kwargs = output_kwargs filters use_hwaccel creation_time"
  using assms by (auto simp: build_options_def split: sum.splits prod.splits)

lemma kwargs_of_encode_options:
  assumes "encode_options to_int vs use_hwaccel = Inr kwargs"
  shows "\<exists>filters creation_time. kwargs = output_kwargs filters use_hwaccel creation_time"
  using assms
  by (auto simp: encode_options_def split: sum.splits option.splits
      dest!: kwargs_of_build_options)

lemma rotate_entry:
  "map_of (output_kwargs filters use_hwaccel creation_time) ''metadata:s:v''
     = Some (PyStr ''rotate=0'')"
  by (simp add: output_kwargs_def)

lemma codec_entry:
  "map_of (output_kwargs filters use_hwaccel creation_time) ''c:v''
     = Some (PyStr (if use_hwaccel then ''h264_qsv'' else ''libx264''))"
  by (simp add: output_kwargs_def)

lemma build_options_built:
  assumes "0 < width" and "width \<le> 3 * 2 ^ 51" and "0 < height" and "height \<le> 3 * 2 ^ 51"
  shows "\<exists>filters. build_options rotation width height creation_time use_hwaccel
           = Inr (output_kwargs filters use_hwaccel creation_time)"
proof -
  have w: "scaled_width width = Inr (2 * width div 3)"
    using assms(1,2) by (rule scaled_width_two_thirds)
  have h: "scaled_width height = Inr (2 * height div 3)"
    using assms(3,4) by (rule scaled_width_two_thirds)
  show ?thesis
    by (cases "rotation = 90 \<or> rotation = 270")
      (auto simp: build_options_def filter_plan_def corrected_dimensions_def vf_filters_def w h)
qed

lemma encode_options_built:
  assumes "stream_width vs = Some width" and "stream_height vs = Some height"
    and "0 < width" and "width \<le> 3 * 2 ^ 51" and "0 < height" and "height \<le> 3 * 2 ^ 51"
    and "\<forall>v. get_tag vs ''rotate'' = Some v \<longrightarrow> to_int v \<noteq> None"
  shows "\<exists>filters creation_time. encode_options to_int vs use_hwaccel
           = Inr (output_kwargs filters use_hwaccel creation_time)"
proof -
  have b: "\<exists>filters. build_options rotation width height creation_time use_hwaccel
           = Inr (output_kwargs filters use_hwaccel creation_time)" for rotation creation_time
    using assms(3-6) by (rule build_options_built)
  show ?thesis
  proof (cases "get_tag vs ''rotate''")
    case None
    then show ?thesis
      using b [of 0 "case get_tag vs ''creation_time'' of None \<Rightarrow> [] | Some c \<Rightarrow> c"]
        assms(1,2)
      by (auto simp: encode_options_def)
  next
    case (Some v)
    then obtain r where "to_int v = Some r" using assms(7) by auto
    then show ?thesis
      using b [of r "case get_tag vs ''creation_time'' of None \<Rightarrow> [] | Some c \<Rightarrow> c"]
        assms(1,2) Some
      by (auto simp: encode_options_def)
  qed
qed





lemma main_loop_count:
  assumes "main_loop ext ind outd hw files n = (Inr m, printed)"
  shows "n \<le> m \<and> m \<le> n + length files"
  using assms
proof (induction files arbitrary: n printed)
  case Nil
  then show ?case by simp
next
  case (Cons f files)
  obtain r out where pv:
    "process_video ext (path_join ind f) (path_join outd f) hw = (r, out)"
    by (cases "process_video ext (path_join ind f) (path_join outd f) hw")
  show ?case
  proof (cases r)
    case (Inl err)
    then show ?thesis using Cons.prems pv by simp
  next
    case (Inr ok)
    show ?thesis
    proof (cases ok)
      case True
      obtain r' later where rest:
        "main_loop ext ind outd hw files (n + 1) = (r', later)"
        by (cases "main_loop ext ind outd hw files (n + 1)")
      then have "r' = Inr m" using Cons.prems pv Inr True by simp
      then show ?thesis using Cons.IH [of "n + 1" later] rest by simp
    next
      case False
      obtain r' later where rest:
        "main_loop ext ind outd hw files n = (r', later)"
        by (cases "main_loop ext ind outd hw files n")
      then have "r' = Inr m" using Cons.prems pv Inr False by simp
      then show ?thesis using Cons.IH [of n later] rest by simp
    qed
  qed
qed

lemma main_loop_append:
  "main_loop ext ind outd hw (xs @ ys) n =
     (case main_loop ext ind outd hw xs n of
        (Inl err, printed) \<Rightarrow> (Inl err, printed)
      | (Inr k, printed) \<Rightarrow>
          (case main_loop ext ind outd hw ys k of (r, later) \<Rightarrow> (r, printed @ later)))"
proof (induction xs arbitrary: n)
  case Nil
  then show ?case by (simp split: prod.splits)
next
  case (Cons f xs)
  show ?case
    by (simp add: Cons.IH split: prod.splits sum.splits bool.splits)
qed

section \<open>Evaluations used below\<close>

lemma scaled_width_720: "scaled_width 720 = Inr 480"
  by code_simp

lemma str_of_int_480: "str_of_int 480 = ''480''"
  by code_simp

lemma str_of_int_1280: "str_of_int 1280 = ''1280''"
  by code_simp

lemma scaled_width_1280: "scaled_width 1280 = Inr 853"
  by code_simp

lemma build_options_example:
  "build_options 0 1920 1080 [] False
     = Inr (output_kwargs [''scale=1280:1080:force_original_aspect_ratio=decrease''] False [])"
  by code_simp

lemma encode_options_example:
  "encode_options (py_int (example_externals False)) video_stream_1920_1080 True
     = Inr (output_kwargs
         [''transpose=1'', ''scale=720:1920:force_original_aspect_ratio=decrease''] True [])"
  by code_simp

lemma encode_options_software_example:
  "encode_options (py_int (example_externals False)) video_stream_1920_1080 False
     = Inr (output_kwargs
         [''transpose=1'', ''scale=720:1920:force_original_aspect_ratio=decrease''] False [])"
  by code_simp






lemma example_batch:
  "main_loop (example_externals False) ''in'' ''out'' False [''a.mp4'', ''b.mov''] 0
     = (Inr 1, [Processing ''a.mp4'', NoVideoStreamWarning ''in/a.mp4'', Failed ''a.mp4'',
                Processing ''b.mov'', Completed ''b.mov''])"
  by code_simp

lemma example_main:
  "main (example_externals False) ''in'' ''out'' False [''a.mp4'', ''b.mov'']
     = (None, [FoundFiles 2, EncoderMode False, Processing ''a.mp4'',
               NoVideoStreamWarning ''in/a.mp4'', Failed ''a.mp4'', Processing ''b.mov'',
               Completed ''b.mov'', Summary 1 2])"
  by code_simp




section \<open>The target width\<close>

text \<open>
  Claim C5, as amended. For every positive corrected width up to \<open>3 * 2 ^ 51\<close>
  (6755399441055744), the target width \<^verbatim>\<open>int(width/1.5)\<close> is computed without error, equals
  the floor of the exact quotient \<open>width / 1.5\<close>, and is strictly less than the width.
  The bound is needed: the source divides in binary64.
\<close>

theorem scaled_width_is_floor:
  assumes "0 < w" and "w \<le> 3 * 2 ^ 51"
  shows "scaled_width w = Inr \<lfloor>real_of_int w / 1.5\<rfloor> \<and> \<lfloor>real_of_int w / 1.5\<rfloor> < w"
proof -
  have "2 * w div 3 < w" using assms(1) by presburger
  then show ?thesis
    using scaled_width_two_thirds [OF assms] by (simp only: floor_over_one_point_five simp_thms)
qed

text \<open>An instance: a width of 1080 gives 720.\<close>

theorem scaled_width_is_floor_witness:
  "scaled_width 1080 = Inr 720 \<and> \<lfloor>real_of_int 1080 / 1.5\<rfloor> = 720 \<and> (720::int) < 1080"
  using scaled_width_is_floor [of 1080] by (simp add: floor_over_one_point_five)

text \<open>
  Claim C5 as stated, for every positive width, fails at the width \<open>3 * 2 ^ 51 + 1\<close>: the
  exact quotient \<open>4503599627370496 + 2/3\<close> lies between \<open>2 ^ 52\<close> and \<open>2 ^ 53\<close>, where
  binary64 holds integers only, so the division rounds it up and \<^verbatim>\<open>int\<close> returns one more
  than the floor.
\<close>

theorem scaled_width_exceeds_floor:
  "scaled_width 6755399441055745 = Inr 4503599627370497
   \<and> \<lfloor>real_of_int 6755399441055745 / 1.5\<rfloor> = 4503599627370496"
proof
  show "scaled_width 6755399441055745 = Inr 4503599627370497" by code_simp
  show "\<lfloor>real_of_int 6755399441055745 / 1.5\<rfloor> = 4503599627370496"
    by (simp add: floor_over_one_point_five)
qed

section \<open>Corrected dimensions\<close>

text \<open>
  Claim C4. For every raw width \<open>W\<close> and height \<open>H\<close>: when the rotation is 90 or 270 the
  corrected dimensions are the raw ones with the axes swapped, \<open>(H, W)\<close>; when it is 0 or
  180 they are the raw dimensions \<open>(W, H)\<close>.
\<close>

theorem corrected_dimensions_by_rotation:
  "(rotation = 90 \<or> rotation = 270 \<longrightarrow> corrected_dimensions rotation W H = (H, W))
   \<and> (rotation = 0 \<or> rotation = 180 \<longrightarrow> corrected_dimensions rotation W H = (W, H))"
  by (auto simp: corrected_dimensions_def)

text \<open>Instances: a 1920 by 1080 stream at rotation 90 and at rotation 180.\<close>

theorem corrected_dimensions_by_rotation_witness:
  "corrected_dimensions 90 1920 1080 = (1080, 1920)
   \<and> corrected_dimensions 180 1920 1080 = (1920, 1080)"
  using corrected_dimensions_by_rotation [of 90 1920 1080]
    corrected_dimensions_by_rotation [of 180 1920 1080]
  by simp

section \<open>The filter chain\<close>

text \<open>
  Claim C6. For rotation 90 the filter chain is the clockwise transpose stage
  \<^verbatim>\<open>transpose=1\<close> followed by the scale stage, whose width is the target width of the
  height \<open>H\<close> swapped in as width, whose height is the raw width \<open>W\<close> swapped in as height,
  not scaled, and whose aspect policy is \<^verbatim>\<open>decrease\<close>. A 1920 by 1080 stream at rotation 90
  gets the corrected dimensions 1080 by 1920, the target width 720 and the chain
  \<^verbatim>\<open>transpose=1\<close>, \<^verbatim>\<open>scale=720:1920:force_original_aspect_ratio=decrease\<close>.
\<close>

theorem rotation_90_chain:
  "(\<forall>tw. scaled_width H = Inr tw \<longrightarrow>
      filter_plan 90 W H =
        Inr ((H, W),
             [''transpose=1'',
              ''scale='' @ str_of_int tw @ '':'' @ str_of_int W
                @ '':force_original_aspect_ratio=decrease'']))
   \<and> scaled_width 1080 = Inr 720
   \<and> filter_plan 90 1920 1080 =
        Inr ((1080, 1920),
             [''transpose=1'', ''scale=720:1920:force_original_aspect_ratio=decrease''])"
proof (intro conjI allI impI)
  fix tw assume "scaled_width H = Inr tw"
  then show "filter_plan 90 W H =
        Inr ((H, W),
             [''transpose=1'',
              ''scale='' @ str_of_int tw @ '':'' @ str_of_int W
                @ '':force_original_aspect_ratio=decrease''])"
    by (simp add: filter_plan_def corrected_dimensions_def vf_filters_def transpose_stage_def
        scale_stage_def)
next
  show "scaled_width 1080 = Inr 720" by code_simp
next
  show "filter_plan 90 1920 1080 =
        Inr ((1080, 1920),
             [''transpose=1'', ''scale=720:1920:force_original_aspect_ratio=decrease''])"
    by code_simp
qed

text \<open>An instance of the general part: a 1280 by 720 stream at rotation 90.\<close>

theorem rotation_90_chain_witness:
  "scaled_width 720 = Inr 480
   \<and> filter_plan 90 1280 720 =
        Inr ((720, 1280),
             [''transpose=1'', ''scale=480:1280:force_original_aspect_ratio=decrease''])"
  using rotation_90_chain [of 720 1280] scaled_width_720
  by (simp add: str_of_int_480 str_of_int_1280)

text \<open>
  Claim C1 says that rotation 180 gives the scale stage alone. Line 48 tests
  \<^verbatim>\<open>if rotation:\<close>, which holds for 180, and line 49 then takes the \<^verbatim>\<open>else\<close> branch of
  \<^verbatim>\<open>1 if rotation == 90 else 2\<close>: the chain of a 1920 by 1080 stream at rotation 180
  starts with \<^verbatim>\<open>transpose=2\<close>, although line 40 does not count 180 as rotated and the
  dimensions are not swapped.
\<close>

theorem rotation_180_emits_transpose:
  "filter_plan 180 1920 1080 =
     Inr ((1920, 1080),
          [''transpose=2'', ''scale=1280:1080:force_original_aspect_ratio=decrease''])"
  by code_simp

text \<open>
  Claim C3 as stated says that a rotation outside 0, 90, 180, 270 makes the planner fail.
  The source checks nothing: at rotation 45 a 1920 by 1080 stream gets a plan.
\<close>

theorem rotation_45_is_planned:
  "\<not> isl (filter_plan 45 1920 1080)
   \<and> filter_plan 45 1920 1080 =
        Inr ((1920, 1080),
             [''transpose=2'', ''scale=1280:1080:force_original_aspect_ratio=decrease''])"
proof -
  have "filter_plan 45 1920 1080 =
        Inr ((1920, 1080),
             [''transpose=2'', ''scale=1280:1080:force_original_aspect_ratio=decrease''])"
    by code_simp
  then show ?thesis by simp
qed

text \<open>
  Claim C3, as amended. For every rotation outside 0, 90, 180 and 270 the planner raises
  no error of its own: whenever the target width is computed, it returns a plan with the
  raw dimensions, not swapped, whose last stage is the scale stage of the target width
  and the raw height.
\<close>

theorem unlisted_rotation_is_planned:
  assumes "rotation \<notin> {0, 90, 180, 270}" and "scaled_width width = Inr tw"
  shows "\<exists>stages. filter_plan rotation width height =
           Inr ((width, height), stages @ [scale_stage tw height])"
  using assms
  by (simp add: filter_plan_def corrected_dimensions_def vf_filters_def)

text \<open>An instance: rotation 45 on a 1280 by 720 stream.\<close>

theorem unlisted_rotation_is_planned_witness:
  "(45::int) \<notin> {0, 90, 180, 270} \<and> scaled_width 1280 = Inr 853
   \<and> (\<exists>stages. filter_plan 45 1280 720 = Inr ((1280, 720), stages @ [scale_stage 853 720]))"
  using unlisted_rotation_is_planned [of 45 1280 853 720] scaled_width_1280
  by simp

section \<open>The encoder options\<close>

text \<open>
  Claim C7. For every input and every rotation value, 0 included, the encoder options
  that are built set the rotation tag of the video stream to 0: the dictionary maps
  \<^verbatim>\<open>metadata:s:v\<close> to \<^verbatim>\<open>rotate=0\<close>. The first two parts say so of whatever lines 40 to
  67, and lines 39 to 67 on a probed stream, build. The last two say that the options are
  built, with that entry: for every rotation whenever the width and the height are
  positive and at most \<open>3 * 2 ^ 51\<close>, and for every stream that holds such a width and
  height and whose \<^verbatim>\<open>rotate\<close> tag, when present, is one that \<^verbatim>\<open>int\<close> reads.
\<close>

theorem rotation_tag_reset:
  "(\<forall>kwargs. build_options rotation width height creation_time use_hwaccel = Inr kwargs
       \<longrightarrow> map_of kwargs ''metadata:s:v'' = Some (PyStr ''rotate=0''))
   \<and> (\<forall>kwargs. encode_options to_int vs use_hwaccel = Inr kwargs
       \<longrightarrow> map_of kwargs ''metadata:s:v'' = Some (PyStr ''rotate=0''))
   \<and> (0 < width \<and> width \<le> 3 * 2 ^ 51 \<and> 0 < height \<and> height \<le> 3 * 2 ^ 51
       \<longrightarrow> (\<exists>kwargs. build_options rotation width height creation_time use_hwaccel = Inr kwargs
              \<and> map_of kwargs ''metadata:s:v'' = Some (PyStr ''rotate=0'')))
   \<and> (stream_width vs = Some width \<and> stream_height vs = Some height
        \<and> 0 < width \<and> width \<le> 3 * 2 ^ 51 \<and> 0 < height \<and> height \<le> 3 * 2 ^ 51
        \<and> (\<forall>v. get_tag vs ''rotate'' = Some v \<longrightarrow> to_int v \<noteq> None)
       \<longrightarrow> (\<exists>kwargs. encode_options to_int vs use_hwaccel = Inr kwargs
              \<and> map_of kwargs ''metadata:s:v'' = Some (PyStr ''rotate=0'')))"
proof -
  have p1: "map_of kwargs ''metadata:s:v'' = Some (PyStr ''rotate=0'')"
    if "build_options rotation width height creation_time use_hwaccel = Inr kwargs" for kwargs
    using kwargs_of_build_options [OF that] rotate_entry by auto
  have p2: "map_of kwargs ''metadata:s:v'' = Some (PyStr ''rotate=0'')"
    if "encode_options to_int vs use_hwaccel = Inr kwargs" for kwargs
    using kwargs_of_encode_options [OF that] rotate_entry by auto
  have p3: "\<exists>kwargs. build_options rotation width height creation_time use_hwaccel = Inr kwargs
              \<and> map_of kwargs ''metadata:s:v'' = Some (PyStr ''rotate=0'')"
    if "0 < width \<and> width \<le> 3 * 2 ^ 51 \<and> 0 < height \<and> height \<le> 3 * 2 ^ 51"
    using build_options_built [of width height rotation creation_time use_hwaccel] that
      rotate_entry by auto
  have p4: "\<exists>kwargs. encode_options to_int vs use_hwaccel = Inr kwargs
              \<and> map_of kwargs ''metadata:s:v'' = Some (PyStr ''rotate=0'')"
    if "stream_width vs = Some width \<and> stream_height vs = Some height
        \<and> 0 < width \<and> width \<le> 3 * 2 ^ 51 \<and> 0 < height \<and> height \<le> 3 * 2 ^ 51
        \<and> (\<forall>v. get_tag vs ''rotate'' = Some v \<longrightarrow> to_int v \<noteq> None)"
    using encode_options_built [of vs width height to_int use_hwaccel] that rotate_entry
    by auto
  show ?thesis using p1 p2 p3 p4 by blast
qed

text \<open>
  Instances: the options built for rotation 0 in software mode, and those built for the
  sample stream in hardware mode.
\<close>

theorem rotation_tag_reset_witness:
  "build_options 0 1920 1080 [] False
     = Inr (output_kwargs [''scale=1280:1080:force_original_aspect_ratio=decrease''] False [])
   \<and> map_of (output_kwargs [''scale=1280:1080:force_original_aspect_ratio=decrease''] False [])
      ''metadata:s:v'' = Some (PyStr ''rotate=0'')
   \<and> encode_options (py_int (example_externals False)) video_stream_1920_1080 True
     = Inr (output_kwargs
         [''transpose=1'', ''scale=720:1920:force_original_aspect_ratio=decrease''] True [])
   \<and> map_of (output_kwargs
         [''transpose=1'', ''scale=720:1920:force_original_aspect_ratio=decrease''] True [])
      ''metadata:s:v'' = Some (PyStr ''rotate=0'')"
  using rotation_tag_reset [of 0 1920 1080 "[]" False
      "py_int (example_externals False)" video_stream_1920_1080]
    rotation_tag_reset [of 0 1920 1080 "[]" True
      "py_int (example_externals False)" video_stream_1920_1080]
    build_options_example encode_options_example
  by simp

text \<open>
  Claim C8. For every input, the video codec \<^verbatim>\<open>c:v\<close> of the options is the hardware
  identifier \<^verbatim>\<open>h264_qsv\<close> exactly when the flag is true and the software identifier
  \<^verbatim>\<open>libx264\<close> exactly when it is false. The options are a function of the stream and
  the flag alone, so nothing about the machine is consulted. The first part says so of
  whatever options are built; the other two say that the options are built, with the
  codec of the flag, for every stream and for every rotation whenever the width and the
  height are positive and at most \<open>3 * 2 ^ 51\<close> and the \<^verbatim>\<open>rotate\<close> tag, when present, is
  one that \<^verbatim>\<open>int\<close> reads.
\<close>

theorem codec_follows_flag:
  "(\<forall>kwargs. encode_options to_int vs use_hwaccel = Inr kwargs \<longrightarrow>
     map_of kwargs ''c:v'' = Some (PyStr (if use_hwaccel then ''h264_qsv'' else ''libx264''))
     \<and> (map_of kwargs ''c:v'' = Some (PyStr ''h264_qsv'')) = use_hwaccel
     \<and> (map_of kwargs ''c:v'' = Some (PyStr ''libx264'')) = (\<not> use_hwaccel))
   \<and> (stream_width vs = Some width \<and> stream_height vs = Some height
        \<and> 0 < width \<and> width \<le> 3 * 2 ^ 51 \<and> 0 < height \<and> height \<le> 3 * 2 ^ 51
        \<and> (\<forall>v. get_tag vs ''rotate'' = Some v \<longrightarrow> to_int v \<noteq> None)
       \<longrightarrow> (\<exists>kwargs. encode_options to_int vs use_hwaccel = Inr kwargs
              \<and> map_of kwargs ''c:v''
                  = Some (PyStr (if use_hwaccel then ''h264_qsv'' else ''libx264''))))
   \<and> (0 < width \<and> width \<le> 3 * 2 ^ 51 \<and> 0 < height \<and> height \<le> 3 * 2 ^ 51
       \<longrightarrow> (\<exists>kwargs. build_options rotation width height creation_time use_hwaccel = Inr kwargs
              \<and> map_of kwargs ''c:v''
                  = Some (PyStr (if use_hwaccel then ''h264_qsv'' else ''libx264''))))"
proof -
  have p1: "map_of kwargs ''c:v'' = Some (PyStr (if use_hwaccel then ''h264_qsv'' else ''libx264''))
     \<and> (map_of kwargs ''c:v'' = Some (PyStr ''h264_qsv'')) = use_hwaccel
     \<and> (map_of kwargs ''c:v'' = Some (PyStr ''libx264'')) = (\<not> use_hwaccel)"
    if enc: "encode_options to_int vs use_hwaccel = Inr kwargs" for kwargs
  proof -
    obtain filters creation_time
      where "kwargs = output_kwargs filters use_hwaccel creation_time"
      using kwargs_of_encode_options [OF enc] by blast
    then show ?thesis by (simp add: codec_entry)
  qed
  have p2: "\<exists>kwargs. encode_options to_int vs use_hwaccel = Inr kwargs
              \<and> map_of kwargs ''c:v''
                  = Some (PyStr (if use_hwaccel then ''h264_qsv'' else ''libx264''))"
    if "stream_width vs = Some width \<and> stream_height vs = Some height
        \<and> 0 < width \<and> width \<le> 3 * 2 ^ 51 \<and> 0 < height \<and> height \<le> 3 * 2 ^ 51
        \<and> (\<forall>v. get_tag vs ''rotate'' = Some v \<longrightarrow> to_int v \<noteq> None)"
    using encode_options_built [of vs width height to_int use_hwaccel] that codec_entry
    by auto
  have p3: "\<exists>kwargs. build_options rotation width height creation_time use_hwaccel = Inr kwargs
              \<and> map_of kwargs ''c:v''
                  = Some (PyStr (if use_hwaccel then ''h264_qsv'' else ''libx264''))"
    if "0 < width \<and> width \<le> 3 * 2 ^ 51 \<and> 0 < height \<and> height \<le> 3 * 2 ^ 51"
    using build_options_built [of width height rotation creation_time use_hwaccel] that
      codec_entry by auto
  show ?thesis using p1 p2 p3 by blast
qed

text \<open>
  Instances: the options built for the sample stream with the flag set and with the flag
  clear.
\<close>

theorem codec_follows_flag_witness:
  "encode_options (py_int (example_externals False)) video_stream_1920_1080 True
     = Inr (output_kwargs
         [''transpose=1'', ''scale=720:1920:force_original_aspect_ratio=decrease''] True [])
   \<and> map_of (output_kwargs
       [''transpose=1'', ''scale=720:1920:force_original_aspect_ratio=decrease''] True [])
     ''c:v'' = Some (PyStr ''h264_qsv'')
   \<and> encode_options (py_int (example_externals False)) video_stream_1920_1080 False
     = Inr (output_kwargs
         [''transpose=1'', ''scale=720:1920:force_original_aspect_ratio=decrease''] False [])
   \<and> map_of (output_kwargs
       [''transpose=1'', ''scale=720:1920:force_original_aspect_ratio=decrease''] False [])
     ''c:v'' = Some (PyStr ''libx264'')"
  using codec_follows_flag [of "py_int (example_externals False)" video_stream_1920_1080 True]
    codec_follows_flag [of "py_int (example_externals False)" video_stream_1920_1080 False]
    encode_options_example encode_options_software_example
  by simp

section \<open>Files without a video stream\<close>




section \<open>The success count\<close>

text \<open>
  Claim C10. The loop raises the success count by at most one for each file: a run of the
  loop that ends normally, from any count \<open>n\<close>, ends with a count between \<open>n\<close> and \<open>n\<close>
  plus the number of files. When the loop over the whole list ends normally, it has
  ended normally on every prefix \<open>seen\<close> of the list, with a count that is at most the
  length of the prefix and at most the final count, and the final count is at most the
  number of files. The summary that \<^verbatim>\<open>main\<close> prints reports a count that is at most the
  number of matched files.
\<close>

theorem success_count_bounded:
  "(\<forall>n m printed. main_loop ext ind outd hw files n = (Inr m, printed)
       \<longrightarrow> n \<le> m \<and> m \<le> n + length files)
   \<and> (\<forall>m printed. main_loop ext ind outd hw (seen @ todo) 0 = (Inr m, printed)
       \<longrightarrow> (\<exists>k out. main_loop ext ind outd hw seen 0 = (Inr k, out)
              \<and> k \<le> length seen \<and> k \<le> m \<and> m \<le> length (seen @ todo)))
   \<and> (\<forall>printed. files \<noteq> [] \<and> main ext ind outd hw files = (None, printed)
       \<longrightarrow> (\<exists>m. m \<le> length files \<and> last printed = Summary m (length files)))"
proof -
  have p1: "n \<le> m \<and> m \<le> n + length files"
    if "main_loop ext ind outd hw files n = (Inr m, printed)" for n m printed
    using that by (rule main_loop_count)
  have p2: "\<exists>k out. main_loop ext ind outd hw seen 0 = (Inr k, out)
              \<and> k \<le> length seen \<and> k \<le> m \<and> m \<le> length (seen @ todo)"
    if run: "main_loop ext ind outd hw (seen @ todo) 0 = (Inr m, printed)" for m printed
  proof -
    obtain r out where pre: "main_loop ext ind outd hw seen 0 = (r, out)"
      by (cases "main_loop ext ind outd hw seen 0")
    show ?thesis
    proof (cases r)
      case (Inl err)
      then show ?thesis using run pre by (simp add: main_loop_append)
    next
      case (Inr k)
      obtain r' later where post: "main_loop ext ind outd hw todo k = (r', later)"
        by (cases "main_loop ext ind outd hw todo k")
      then have "r' = Inr m" using run pre Inr by (simp add: main_loop_append)
      then have "k \<le> m" using main_loop_count post by blast
      moreover have "k \<le> length seen" using main_loop_count pre Inr by fastforce
      moreover have "m \<le> length (seen @ todo)" using main_loop_count [OF run] by simp
      ultimately show ?thesis using pre Inr by simp
    qed
  qed
  have p3: "\<exists>m. m \<le> length files \<and> last printed = Summary m (length files)"
    if a: "files \<noteq> [] \<and> main ext ind outd hw files = (None, printed)" for printed
  proof -
    from a have ne: "files \<noteq> []" and mn: "main ext ind outd hw files = (None, printed)"
      by simp_all
    obtain r out where loop: "main_loop ext ind outd hw files 0 = (r, out)"
      by (cases "main_loop ext ind outd hw files 0")
    show ?thesis
    proof (cases r)
      case (Inl err)
      then show ?thesis using ne mn loop by (simp add: main_def)
    next
      case (Inr m)
      then have "m \<le> length files" using main_loop_count loop by fastforce
      moreover have "last printed = Summary m (length files)"
        using ne mn loop Inr by (auto simp: main_def)
      ultimately show ?thesis by blast
    qed
  qed
  show ?thesis using p1 p2 p3 by blast
qed

text \<open>An instance: the two files of the sample run, the prefix being the first file.\<close>

theorem success_count_bounded_witness:
  "(0::nat) \<le> 1 \<and> (1::nat) \<le> 0 + length [''a.mp4'', ''b.mov'']
   \<and> (\<exists>k out. main_loop (example_externals False) ''in'' ''out'' False [''a.mp4''] 0 = (Inr k, out)
        \<and> k \<le> length [''a.mp4''] \<and> k \<le> 1)
   \<and> (\<exists>m. m \<le> length [''a.mp4'', ''b.mov'']
        \<and> last [FoundFiles 2, EncoderMode False, Processing ''a.mp4'',
               NoVideoStreamWarning ''in/a.mp4'', Failed ''a.mp4'', Processing ''b.mov'',
               Completed ''b.mov'', Summary 1 2] = Summary m (length [''a.mp4'', ''b.mov'']))"
  using success_count_bounded [of "example_externals False" "''in''" "''out''" False
      "[''a.mp4'', ''b.mov'']" "[''a.mp4'']" "[''b.mov'']"]
    example_batch example_main
  by simp

section \<open>A failing timestamp\<close>

text \<open>
  Claim C2 says that a failure of the timestamp operation after a successful encode is
  caught and logged and that the file still counts as a success. Line 77 calls
  \<^verbatim>\<open>os.utime\<close> inside a \<^verbatim>\<open>try\<close> whose only handler is for \<^verbatim>\<open>ffmpeg.Error\<close>; the helper
  \<^verbatim>\<open>preserve_file_dates\<close> of lines 10 to 17, which catches the failure and prints a
  warning, is never called. In the sample run with a failing \<^verbatim>\<open>os.utime\<close>, the encode of
  \<^verbatim>\<open>b.mov\<close> succeeds, the \<^verbatim>\<open>OSError\<close> leaves \<^verbatim>\<open>process_video\<close>, and \<^verbatim>\<open>main\<close> ends with
  it before any summary is printed.
\<close>

theorem utime_failure_escapes:
  "process_video (example_externals True) ''in/b.mov'' ''out/b.mov'' False = (Inl OSError, [])
   \<and> main (example_externals True) ''in'' ''out'' False [''b.mov'']
       = (Some OSError, [FoundFiles 1, EncoderMode False, Processing ''b.mov''])"
  by code_simp

end
